theory Spec2Isabelle
  imports Complex_Main
begin

section \<open>Values, errors and diagnostics\<close>

text \<open>
  The simulation engine of \<^verbatim>\<open>snn/model_struct.py\<close>: the leaky-integrate-and-fire
  neuron \<^verbatim>\<open>SpikyNode\<close>, the layer \<^verbatim>\<open>SpikyLayer\<close> and the two-layer network
  \<^verbatim>\<open>SpikyNet\<close>.

  Python floats are idealised as real numbers. The only non-finite float the module
  writes itself is \<^verbatim>\<open>-np.inf\<close>, the "at rest" value of a neuron's level, so a
  level is either that sentinel or a finite number.
\<close>

datatype activation = NegInf | Finite real

text \<open>The exceptions the modelled statements can raise.\<close>

datatype py_error = IndexError | KeyError | ZeroDivisionError

text \<open>
  What the two \<^verbatim>\<open>print\<close> calls write. The first message interpolates the number of
  inputs, the number of weights and the weights; the second is a constant string.
\<close>

datatype diag = InputMismatch nat nat "real list" | WeightSizeMismatch

definition SPIKE_DECAY :: real where
  "SPIKE_DECAY = 1 / 10"

definition MAX_FIRELOG_SIZE :: nat where
  "MAX_FIRELOG_SIZE = 200"

section \<open>Python list slicing\<close>

text \<open>\<^verbatim>\<open>xs[start:]\<close> for any integer \<^verbatim>\<open>start\<close>: a negative start counts from the end, and
  both ends are clamped to the list.\<close>

definition slice_from :: "int \<Rightarrow> 'a list \<Rightarrow> 'a list" where
  "slice_from start xs =
     (if start < 0 then drop (nat (max 0 (int (length xs) + start))) xs
      else drop (nat start) xs)"

text \<open>\<^verbatim>\<open>xs[start:end]\<close> for \<^verbatim>\<open>0 <= start <= end\<close>, clamped to the list.\<close>

definition slice :: "nat \<Rightarrow> nat \<Rightarrow> 'a list \<Rightarrow> 'a list" where
  "slice start end xs = take (end - start) (drop start xs)"

section \<open>RingBuffer\<close>

text \<open>
  Modelled from the spec: the class \<^verbatim>\<open>RingBuffer\<close> of \<^verbatim>\<open>snn/ring_buffer.py\<close>, which
  \<^verbatim>\<open>model_struct.py\<close> imports and which is not among the sources. The spec gives it a
  fixed capacity, a sequence of at most that many entries and a cursor for the write
  position; \<^verbatim>\<open>add\<close> appends while the buffer is not full and then overwrites the oldest
  entry in place; \<^verbatim>\<open>get\<close> returns the entries oldest first; \<^verbatim>\<open>length\<close> is the number of
  stored entries. The entries are the Python integers 0 and 1 that the neuron adds.
\<close>

record RingBuffer =
  capacity :: nat
  data :: "int list"
  cursor :: nat

text \<open>Modelled from the spec: \<^verbatim>\<open>RingBuffer(capacity)\<close>, an empty buffer with its cursor at 0.\<close>

definition new_RingBuffer :: "nat \<Rightarrow> RingBuffer" where
  "new_RingBuffer c = \<lparr>capacity = c, data = [], cursor = 0\<rparr>"

text \<open>Modelled from the spec: \<^verbatim>\<open>RingBuffer.add\<close>, which appends while the buffer is not full, then
  overwrites the entry at the cursor, and moves the cursor on, wrapping at the capacity.\<close>

definition rb_add :: "int \<Rightarrow> RingBuffer \<Rightarrow> RingBuffer" where
  "rb_add v rb =
     (let d = (if length (data rb) < capacity rb then data rb @ [v]
               else (data rb)[cursor rb := v])
      in rb\<lparr>data := d, cursor := (cursor rb + 1) mod capacity rb\<rparr>)"

text \<open>Modelled from the spec: \<^verbatim>\<open>RingBuffer.get\<close>, the stored entries from the oldest to the
  newest: once the buffer is full the oldest entry is the one at the cursor.\<close>

definition rb_get :: "RingBuffer \<Rightarrow> int list" where
  "rb_get rb =
     (if length (data rb) < capacity rb then data rb
      else drop (cursor rb) (data rb) @ take (cursor rb) (data rb))"

text \<open>Modelled from the spec: \<^verbatim>\<open>RingBuffer.length\<close>, the number of stored entries.\<close>

definition rb_length :: "RingBuffer \<Rightarrow> nat" where
  "rb_length rb = length (data rb)"

text \<open>The states of a buffer that \<open>new_RingBuffer\<close> and \<open>rb_add\<close> can produce.\<close>

definition rb_wf :: "RingBuffer \<Rightarrow> bool" where
  "rb_wf rb \<longleftrightarrow>
     0 < capacity rb \<and>
     (if length (data rb) < capacity rb then cursor rb = length (data rb)
      else length (data rb) = capacity rb \<and> cursor rb < capacity rb)"

section \<open>SpikyNode\<close>

record SpikyNode =
  weights :: "real list"
  level :: activation
  firelog :: RingBuffer
  levels_log :: "activation list"

text \<open>
  \<^verbatim>\<open>SpikyNode(size)\<close> draws \<^verbatim>\<open>size + 1\<close> weights from the process-wide random source;
  the drawn vector is a parameter here.
\<close>

definition new_SpikyNode :: "real list \<Rightarrow> SpikyNode" where
  "new_SpikyNode drawn =
     \<lparr>weights = drawn, level = NegInf,
      firelog = new_RingBuffer MAX_FIRELOG_SIZE, levels_log = []\<rparr>"

text \<open>\<^verbatim>\<open>self.level *= (1 - SPIKE_DECAY)\<close>: the factor is positive, so \<^verbatim>\<open>-inf\<close> stays.\<close>

fun decay :: "activation \<Rightarrow> activation" where
  "decay NegInf = NegInf"
| "decay (Finite l) = Finite (l * (1 - SPIKE_DECAY))"

text \<open>\<^verbatim>\<open>sum(inputs[i] * self._weights[i] for i in range(len(inputs)))\<close>\<close>

definition weighted_sum :: "real list \<Rightarrow> real list \<Rightarrow> real" where
  "weighted_sum inputs ws = sum_list (map (\<lambda>i. inputs ! i * ws ! i) [0..<length inputs])"

text \<open>\<^verbatim>\<open>self._weights[-1]\<close> raises on an empty weight vector.\<close>

definition get_bias :: "SpikyNode \<Rightarrow> py_error + real" where
  "get_bias self = (if weights self = [] then Inl IndexError else Inr (last (weights self)))"

definition set_bias :: "real \<Rightarrow> SpikyNode \<Rightarrow> py_error + SpikyNode" where
  "set_bias val self =
     (if weights self = [] then Inl IndexError
      else Inr (self\<lparr>weights := (weights self)[length (weights self) - 1 := val]\<rparr>))"

text \<open>\<^verbatim>\<open>self.level >= bias\<close>\<close>

fun level_ge :: "activation \<Rightarrow> real \<Rightarrow> bool" where
  "level_ge NegInf b = False"
| "level_ge (Finite l) b = (b \<le> l)"

text \<open>
  \<^verbatim>\<open>SpikyNode.compute\<close>. The result is the returned pair or the exception, the neuron
  after the call, and what was printed.
\<close>

definition SpikyNode_compute ::
  "real list \<Rightarrow> SpikyNode \<Rightarrow> (py_error + real \<times> activation) \<times> SpikyNode \<times> diag list" where
  "SpikyNode_compute inputs self =
     (let s1 = self\<lparr>level := decay (level self)\<rparr> in
      if length inputs + 1 \<noteq> length (weights s1) then
        (Inr (0, level s1), s1,
         [InputMismatch (length inputs) (length (weights s1)) (weights s1)])
      else
        let ws = weighted_sum inputs (weights s1);
            s2 = s1\<lparr>level := (case level s1 of NegInf \<Rightarrow> Finite ws
                                | Finite l \<Rightarrow> Finite (l + ws))\<rparr>;
            s3 = s2\<lparr>levels_log := levels_log s2 @ [level s2]\<rparr>
        in case get_bias s3 of
             Inl e \<Rightarrow> (Inl e, s3, [])
           | Inr b \<Rightarrow>
               if level_ge (level s3) b then
                 let s4 = s3\<lparr>level := NegInf\<rparr>;
                     s5 = s4\<lparr>firelog := rb_add 1 (firelog s4)\<rparr>
                 in (Inr (1, level s5), s5, [])
               else
                 let s4 = s3\<lparr>firelog := rb_add 0 (firelog s3)\<rparr>
                 in (Inr (0, level s4), s4, []))"

text \<open>
  \<^verbatim>\<open>SpikyNode.duty_cycle(window)\<close> with the argument given: \<open>None\<close> is Python's
  \<^verbatim>\<open>None\<close>. The division of two integers is Python's true division.
\<close>

definition duty_cycle :: "int option \<Rightarrow> SpikyNode \<Rightarrow> py_error + real" where
  "duty_cycle window self =
     (if rb_length (firelog self) = 0 then Inr 0
      else
        let n = int (rb_length (firelog self));
            w = (case window of None \<Rightarrow> n | Some w0 \<Rightarrow> if w0 > n then n else w0);
            recent_fires = slice_from (- w) (rb_get (firelog self))
        in if w = 0 then Inl ZeroDivisionError
           else Inr (real_of_int (sum_list recent_fires) / real_of_int w))"

text \<open>The call \<^verbatim>\<open>duty_cycle()\<close>: the signature binds \<^verbatim>\<open>window=100\<close>.\<close>

definition duty_cycle_default :: "SpikyNode \<Rightarrow> py_error + real" where
  "duty_cycle_default self = duty_cycle (Some 100) self"

text \<open>
  \<^verbatim>\<open>SpikyNode.set_weights\<close>: \<^verbatim>\<open>w[:-1]\<close> is all but the last entry, and the slice
  assignment leaves the rest of the copy, \<^verbatim>\<open>w[-1:]\<close>, as it is.
\<close>

definition SpikyNode_set_weights :: "real list \<Rightarrow> SpikyNode \<Rightarrow> SpikyNode \<times> diag list" where
  "SpikyNode_set_weights input_weights self =
     (if length input_weights \<noteq> length (weights self) then (self, [WeightSizeMismatch])
      else
        (self\<lparr>weights := map abs (take (length input_weights - 1) input_weights)
                           @ drop (length input_weights - 1) input_weights\<rparr>, []))"

section \<open>SpikyLayer\<close>

record SpikyLayer =
  nodes :: "SpikyNode list"

definition new_SpikyLayer :: "real list list \<Rightarrow> SpikyLayer" where
  "new_SpikyLayer drawn = \<lparr>nodes = map new_SpikyNode drawn\<rparr>"

text \<open>
  The loop of \<^verbatim>\<open>SpikyLayer.compute\<close>. An exception of a neuron leaves the loop: the
  neurons before it have been stepped, the ones after it have not.
\<close>

fun compute_nodes ::
  "real list \<Rightarrow> SpikyNode list \<Rightarrow>
   (py_error + real list \<times> activation list) \<times> SpikyNode list \<times> diag list" where
  "compute_nodes inputs [] = (Inr ([], []), [], [])"
| "compute_nodes inputs (node # rest) =
     (case SpikyNode_compute inputs node of
        (Inl e, node', d) \<Rightarrow> (Inl e, node' # rest, d)
      | (Inr (output, lvl), node', d) \<Rightarrow>
          (case compute_nodes inputs rest of
             (Inl e, rest', d') \<Rightarrow> (Inl e, node' # rest', d @ d')
           | (Inr (outputs, levels), rest', d') \<Rightarrow>
               (Inr (output # outputs, lvl # levels), node' # rest', d @ d')))"

definition SpikyLayer_compute ::
  "real list \<Rightarrow> SpikyLayer \<Rightarrow>
   (py_error + real list \<times> activation list) \<times> SpikyLayer \<times> diag list" where
  "SpikyLayer_compute inputs self =
     (case compute_nodes inputs (nodes self) of
        (r, ns, d) \<Rightarrow> (r, self\<lparr>nodes := ns\<rparr>, d))"

text \<open>The loop of \<^verbatim>\<open>SpikyLayer.set_weights\<close> over \<^verbatim>\<open>enumerate(self.nodes)\<close>, from index \<open>idx\<close>.\<close>

fun set_weights_nodes ::
  "nat \<Rightarrow> real list \<Rightarrow> nat \<Rightarrow> SpikyNode list \<Rightarrow> SpikyNode list \<times> diag list" where
  "set_weights_nodes weights_per_node input_weights idx [] = ([], [])"
| "set_weights_nodes weights_per_node input_weights idx (node # rest) =
     (let start = idx * weights_per_node;
          end = start + weights_per_node;
          (node', d) = SpikyNode_set_weights (slice start end input_weights) node;
          (rest', d') = set_weights_nodes weights_per_node input_weights (Suc idx) rest
      in (node' # rest', d @ d'))"

definition SpikyLayer_set_weights :: "real list \<Rightarrow> SpikyLayer \<Rightarrow> SpikyLayer \<times> diag list" where
  "SpikyLayer_set_weights input_weights self =
     (if nodes self = [] then (self, [])
      else
        let weights_per_node = length input_weights div length (nodes self);
            (ns, d) = set_weights_nodes weights_per_node input_weights 0 (nodes self)
        in (self\<lparr>nodes := ns\<rparr>, d))"

section \<open>SpikyNet\<close>

record SpikyNet =
  hidden_layer :: SpikyLayer
  output_layer :: SpikyLayer

text \<open>
  \<^verbatim>\<open>SpikyNet(input_size, hidden_size, output_size)\<close>, with the drawn weights of the
  hidden and of the output neurons as parameters.
\<close>

definition new_SpikyNet :: "real list list \<Rightarrow> real list list \<Rightarrow> SpikyNet" where
  "new_SpikyNet drawn_hidden drawn_output =
     \<lparr>hidden_layer = new_SpikyLayer drawn_hidden, output_layer = new_SpikyLayer drawn_output\<rparr>"

text \<open>\<^verbatim>\<open>SpikyNet.compute\<close>; \<^verbatim>\<open>firelog_window\<close> is accepted and not used.\<close>

definition SpikyNet_compute ::
  "real list \<Rightarrow> int \<Rightarrow> SpikyNet \<Rightarrow>
   (py_error + real list \<times> activation list) \<times> SpikyNet \<times> diag list" where
  "SpikyNet_compute inputs firelog_window self =
     (case SpikyLayer_compute inputs (hidden_layer self) of
        (Inl e, h, d) \<Rightarrow> (Inl e, self\<lparr>hidden_layer := h\<rparr>, d)
      | (Inr (hidden_output, hidden_levels), h, d) \<Rightarrow>
          (case SpikyLayer_compute hidden_output (output_layer self) of
             (r, ol, d') \<Rightarrow> (r, self\<lparr>hidden_layer := h, output_layer := ol\<rparr>, d @ d')))"

text \<open>
  \<^verbatim>\<open>SpikyNet.set_weights\<close>: the genome is a dictionary; a missing key raises
  \<^verbatim>\<open>KeyError\<close> at its subscript, after the statements before it have run.
\<close>

definition SpikyNet_set_weights ::
  "(string \<rightharpoonup> real list) \<Rightarrow> SpikyNet \<Rightarrow> (py_error + unit) \<times> SpikyNet \<times> diag list" where
  "SpikyNet_set_weights input_weights self =
     (case input_weights ''hidden_layer'' of
        None \<Rightarrow> (Inl KeyError, self, [])
      | Some hw \<Rightarrow>
          (case SpikyLayer_set_weights hw (hidden_layer self) of
             (h, d) \<Rightarrow>
               (case input_weights ''output_layer'' of
                  None \<Rightarrow> (Inl KeyError, self\<lparr>hidden_layer := h\<rparr>, d)
                | Some ow \<Rightarrow>
                    (case SpikyLayer_set_weights ow (output_layer self) of
                       (ol, d') \<Rightarrow>
                         (Inr (), self\<lparr>hidden_layer := h, output_layer := ol\<rparr>, d @ d')))))"

section \<open>Invariants of the firing history\<close>

lemma rb_wf_new: "0 < c \<Longrightarrow> rb_wf (new_RingBuffer c)"
  by (simp add: rb_wf_def new_RingBuffer_def)

lemma rb_wf_add:
  assumes "rb_wf rb"
  shows "rb_wf (rb_add v rb)"
proof -
  from assms have pos: "0 < capacity rb" by (simp add: rb_wf_def)
  then have m: "(cursor rb + 1) mod capacity rb < capacity rb" by (rule mod_less_divisor)
  show ?thesis
  proof (cases "length (data rb) < capacity rb")
    case True
    with assms have c: "cursor rb = length (data rb)" by (simp add: rb_wf_def)
    show ?thesis
    proof (cases "Suc (length (data rb)) < capacity rb")
      case True
      then show ?thesis using c pos by (simp add: rb_wf_def rb_add_def Let_def)
    next
      case False
      with \<open>length (data rb) < capacity rb\<close> have "Suc (length (data rb)) = capacity rb" by simp
      then show ?thesis using c pos \<open>length (data rb) < capacity rb\<close>
        by (simp add: rb_wf_def rb_add_def Let_def)
    qed
  next
    case False
    with assms have "length (data rb) = capacity rb" by (simp add: rb_wf_def)
    then show ?thesis using pos m by (simp add: rb_wf_def rb_add_def Let_def del: One_nat_def)
  qed
qed

text \<open>The entry just added is the newest one that \<open>rb_get\<close> returns.\<close>

lemma rb_get_add_last:
  assumes "rb_wf rb"
  shows "rb_get (rb_add v rb) \<noteq> [] \<and> last (rb_get (rb_add v rb)) = v"
proof (cases "length (data rb) < capacity rb")
  case True
  with assms have c: "cursor rb = length (data rb)" by (simp add: rb_wf_def)
  show ?thesis
  proof (cases "Suc (length (data rb)) < capacity rb")
    case True
    then show ?thesis using c by (simp add: rb_get_def rb_add_def Let_def)
  next
    case False
    with \<open>length (data rb) < capacity rb\<close> have "Suc (length (data rb)) = capacity rb" by simp
    then show ?thesis using c \<open>length (data rb) < capacity rb\<close>
      by (simp add: rb_get_def rb_add_def Let_def)
  qed
next
  case False
  with assms have full: "length (data rb) = capacity rb" and c: "cursor rb < capacity rb"
    and pos: "0 < capacity rb"
    by (simp_all add: rb_wf_def)
  let ?d = "(data rb)[cursor rb := v]"
  show ?thesis
  proof (cases "Suc (cursor rb) < capacity rb")
    case True
    have "take (Suc (cursor rb)) ?d = take (cursor rb) ?d @ [v]"
      using c full by (simp add: take_Suc_conv_app_nth)
    then show ?thesis using True full
      by (simp add: rb_get_def rb_add_def Let_def)
  next
    case False
    with c have e: "Suc (cursor rb) = capacity rb" by simp
    then have k: "cursor rb = length (data rb) - 1" using full by simp
    have ne: "data rb \<noteq> []" using pos full by auto
    have "last ?d = v" using last_list_update [OF ne, of "cursor rb" v] k by simp
    moreover have "?d \<noteq> []" using ne by simp
    ultimately show ?thesis using e full
      by (simp add: rb_get_def rb_add_def Let_def)
  qed
qed

lemma length_rb_get: "length (rb_get rb) = rb_length rb"
  by (auto simp: rb_get_def rb_length_def)

lemma set_rb_get: "set (rb_get rb) = set (data rb)"
proof -
  have "set (drop (cursor rb) (data rb)) \<union> set (take (cursor rb) (data rb))
      = set (take (cursor rb) (data rb) @ drop (cursor rb) (data rb))"
    by (simp only: set_append Un_commute)
  also have "\<dots> = set (data rb)"
    by (simp only: append_take_drop_id)
  finally show ?thesis by (simp add: rb_get_def)
qed

lemma rb_add_entries: "set (rb_get (rb_add v rb)) \<subseteq> insert v (set (rb_get rb))"
  using set_update_subset_insert [of "data rb" "cursor rb" v]
  by (auto simp: set_rb_get rb_add_def Let_def)

text \<open>
  A neuron is created with a well-formed, empty firing history, and
  \<^verbatim>\<open>compute\<close> keeps it well formed and made of 0s and 1s.
\<close>

lemma new_SpikyNode_firelog:
  "rb_wf (firelog (new_SpikyNode drawn)) \<and> rb_get (firelog (new_SpikyNode drawn)) = []"
  by (simp add: new_SpikyNode_def rb_wf_def new_RingBuffer_def MAX_FIRELOG_SIZE_def rb_get_def)

lemma compute_firelog_cases:
  "firelog (fst (snd (SpikyNode_compute inputs self))) = firelog self \<or>
   firelog (fst (snd (SpikyNode_compute inputs self))) = rb_add 0 (firelog self) \<or>
   firelog (fst (snd (SpikyNode_compute inputs self))) = rb_add 1 (firelog self)"
  by (simp add: SpikyNode_compute_def Let_def split: sum.splits)

lemma compute_keeps_rb_wf:
  "rb_wf (firelog self) \<Longrightarrow> rb_wf (firelog (fst (snd (SpikyNode_compute inputs self))))"
  using compute_firelog_cases [of inputs self] by (auto simp: rb_wf_add)

lemma compute_keeps_bits:
  assumes "set (rb_get (firelog self)) \<subseteq> {0, 1}"
  shows "set (rb_get (firelog (fst (snd (SpikyNode_compute inputs self))))) \<subseteq> {0, 1}"
  using compute_firelog_cases [of inputs self] assms
    rb_add_entries [of 0 "firelog self"] rb_add_entries [of 1 "firelog self"]
  by auto

section \<open>Arithmetic of the weighted sum and of the history\<close>

lemma sum_list_all_zero:
  "\<forall>x\<in>set xs. f x = (0::real) \<Longrightarrow> sum_list (map f xs) = 0"
  by (induction xs) simp_all

lemma weighted_sum_zero:
  assumes "\<forall>x\<in>set inputs. x = 0"
  shows "weighted_sum inputs ws = 0"
  unfolding weighted_sum_def
proof (rule sum_list_all_zero, rule ballI)
  fix i assume "i \<in> set [0..<length inputs]"
  then have "inputs ! i \<in> set inputs" by simp
  with assms show "inputs ! i * ws ! i = 0" by simp
qed

lemma sum_list_bits:
  "set xs \<subseteq> {0, 1} \<Longrightarrow> sum_list xs = int (count_list xs 1)"
  by (induction xs) auto

lemma slice_from_last:
  assumes "0 < w" and "w \<le> int (length xs)"
  shows "slice_from (- w) xs = drop (length xs - nat w) xs"
proof -
  have "nat (max 0 (int (length xs) + - w)) = length xs - nat w"
    using assms by linarith
  then show ?thesis using assms(1) by (simp add: slice_from_def)
qed

section \<open>Neuron weights\<close>

text \<open>
  C8. \<^verbatim>\<open>SpikyNode.set_weights\<close> with a vector as long as the current weight vector
  replaces the weights by that vector with every entry but the last replaced by its
  absolute value, and prints nothing; with a vector of any other length it prints the
  mismatch message and leaves the neuron, and so its weights, as they were.
\<close>

theorem set_weights_node:
  "SpikyNode_set_weights v self =
     (if length v = length (weights self)
      then (self\<lparr>weights := map abs (butlast v) @ (if v = [] then [] else [last v])\<rparr>, [])
      else (self, [WeightSizeMismatch]))"
proof (cases v rule: rev_cases)
  case Nil
  then show ?thesis by (simp add: SpikyNode_set_weights_def)
next
  case (snoc ys y)
  then show ?thesis by (simp add: SpikyNode_set_weights_def)
qed

theorem set_weights_node_witness:
  "SpikyNode_set_weights [-1, 2, -3] (new_SpikyNode [5, 6, 7]) =
     (new_SpikyNode [1, 2, -3], [])
   \<and> SpikyNode_set_weights [-1, 2] (new_SpikyNode [5, 6, 7]) =
     (new_SpikyNode [5, 6, 7], [WeightSizeMismatch])"
  using set_weights_node [of "[-1, 2, -3]" "new_SpikyNode [5, 6, 7]"]
    set_weights_node [of "[-1, 2]" "new_SpikyNode [5, 6, 7]"]
  by (simp add: new_SpikyNode_def)

section \<open>Neuron step\<close>

text \<open>
  C1 (as amended). When the input vector's length plus one differs from the length of
  the weight vector, \<^verbatim>\<open>compute\<close> raises nothing, prints one diagnostic and returns 0.0
  together with the level after the decay step of this very call, which is also the
  level the neuron keeps. The firing history, the weights and the levels log are
  untouched. The returned level is the level from before the call when the neuron is at
  rest or its level is 0.
\<close>

theorem compute_width_mismatch:
  assumes "length inputs + 1 \<noteq> length (weights self)"
  shows "SpikyNode_compute inputs self =
           (Inr (0, decay (level self)), self\<lparr>level := decay (level self)\<rparr>,
            [InputMismatch (length inputs) (length (weights self)) (weights self)])
       \<and> firelog (fst (snd (SpikyNode_compute inputs self))) = firelog self
       \<and> (level self = NegInf \<or> level self = Finite 0 \<longrightarrow>
            fst (SpikyNode_compute inputs self) = Inr (0, level self)
          \<and> fst (snd (SpikyNode_compute inputs self)) = self)"
  using assms by (auto simp: SpikyNode_compute_def Let_def)

text \<open>C1, at a fresh neuron with one input and at a charging neuron with level 2.\<close>

theorem compute_width_mismatch_witness:
  "length ([] :: real list) + 1 \<noteq> length (weights (new_SpikyNode [1, 2]))
   \<and> SpikyNode_compute [] (new_SpikyNode [1, 2]) =
       (Inr (0, NegInf), new_SpikyNode [1, 2], [InputMismatch 0 2 [1, 2]])
   \<and> fst (SpikyNode_compute [3, 4] ((new_SpikyNode [1, 2])\<lparr>level := Finite 2\<rparr>)) =
       Inr (0, Finite (9 / 5))"
  using compute_width_mismatch [of "[]" "new_SpikyNode [1, 2]"]
    compute_width_mismatch [of "[3, 4]" "(new_SpikyNode [1, 2])\<lparr>level := Finite 2\<rparr>"]
  by (simp add: new_SpikyNode_def SPIKE_DECAY_def)

text \<open>
  C1 as stated fails. A neuron with weights \<open>[1/5, 5]\<close> that was fed \<open>[5]\<close> is
  charging at level 1; a call with an input vector of the wrong length then returns
  the level 9/10, not the level 1 it had.
\<close>

theorem decayed_level_on_mismatch_counterexample:
  "level (fst (snd (SpikyNode_compute [5] (new_SpikyNode [1 / 5, 5])))) = Finite 1 \<and>
   fst (SpikyNode_compute [] (fst (snd (SpikyNode_compute [5] (new_SpikyNode [1 / 5, 5])))))
     = Inr (0, Finite (9 / 10)) \<and>
   fst (SpikyNode_compute [] (fst (snd (SpikyNode_compute [5] (new_SpikyNode [1 / 5, 5])))))
     \<noteq> Inr (0, level (fst (snd (SpikyNode_compute [5] (new_SpikyNode [1 / 5, 5])))))"
  by (simp add: SpikyNode_compute_def Let_def new_SpikyNode_def weighted_sum_def get_bias_def
      SPIKE_DECAY_def)

text \<open>
  C2 (as amended). For a neuron at rest and an all-zero input vector of the right
  width, the level after \<^verbatim>\<open>compute\<close> is the rest sentinel exactly when the bias is
  at most 0: the new level 0 reaches the threshold, the neuron fires and is reset.
  With a positive bias the neuron is left charging at level 0.
\<close>

theorem compute_rest_zero_input:
  assumes "level self = NegInf"
    and "length inputs + 1 = length (weights self)"
    and "\<forall>x\<in>set inputs. x = 0"
  shows "(level (fst (snd (SpikyNode_compute inputs self))) = NegInf
            \<longleftrightarrow> last (weights self) \<le> 0)
       \<and> get_bias self = Inr (last (weights self))
       \<and> fst (SpikyNode_compute inputs self) =
           (if last (weights self) \<le> 0 then Inr (1, NegInf) else Inr (0, Finite 0))"
proof -
  have ne: "weights self \<noteq> []" using assms(2) by auto
  have ws: "weighted_sum inputs (weights self) = 0" using assms(3) by (rule weighted_sum_zero)
  show ?thesis using assms(1,2) ne ws
    by (simp add: SpikyNode_compute_def Let_def get_bias_def)
qed

text \<open>C2, at a fresh neuron with two inputs and bias 1/2: it stays charging at 0.\<close>

theorem compute_rest_zero_input_witness:
  "level (new_SpikyNode [1, 1, 1 / 2]) = NegInf
   \<and> length [0, 0 :: real] + 1 = length (weights (new_SpikyNode [1, 1, 1 / 2]))
   \<and> set [0, 0 :: real] \<subseteq> {0}
   \<and> level (fst (snd (SpikyNode_compute [0, 0] (new_SpikyNode [1, 1, 1 / 2])))) \<noteq> NegInf
   \<and> fst (SpikyNode_compute [0, 0] (new_SpikyNode [1, 1, 1 / 2])) = Inr (0, Finite 0)"
  using compute_rest_zero_input [of "new_SpikyNode [1, 1, 1 / 2]" "[0, 0]"]
  by (simp add: new_SpikyNode_def)

text \<open>
  C2 as stated fails. A fresh neuron with bias \<open>-1\<close> fed \<open>[0]\<close> fires and is left
  at the rest sentinel, and its bias is not at least 0.
\<close>

theorem negative_bias_rest_counterexample:
  "level (new_SpikyNode [1, - 1]) = NegInf \<and>
   level (fst (snd (SpikyNode_compute [0] (new_SpikyNode [1, - 1])))) = NegInf \<and>
   get_bias (new_SpikyNode [1, - 1]) = Inr (- 1) \<and> \<not> (0 \<le> (- 1 :: real))"
  by (simp add: SpikyNode_compute_def Let_def new_SpikyNode_def weighted_sum_def get_bias_def)

text \<open>
  C5. A charging neuron at level \<open>L\<close> that is fed an all-zero input vector of the right
  width, and whose decayed level stays below the bias, is left at level
  \<open>L * (1 - 1/10)\<close>, which is also the level returned.
\<close>

theorem compute_decay_law:
  assumes "level self = Finite L"
    and "length inputs + 1 = length (weights self)"
    and "\<forall>x\<in>set inputs. x = 0"
    and "L * (1 - SPIKE_DECAY) < last (weights self)"
  shows "level (fst (snd (SpikyNode_compute inputs self))) = Finite (L * (1 - 1 / 10))
       \<and> fst (SpikyNode_compute inputs self) = Inr (0, Finite (L * (1 - 1 / 10)))"
proof -
  have ne: "weights self \<noteq> []" using assms(2) by auto
  have ws: "weighted_sum inputs (weights self) = 0" using assms(3) by (rule weighted_sum_zero)
  show ?thesis using assms(1,2,4) ne ws
    by (simp add: SpikyNode_compute_def Let_def get_bias_def SPIKE_DECAY_def)
qed

text \<open>C5, at a neuron charging at level 2 under a bias of 5.\<close>

theorem compute_decay_law_witness:
  "level ((new_SpikyNode [1 / 5, 5])\<lparr>level := Finite 2\<rparr>) = Finite 2
   \<and> length [0 :: real] + 1 = length (weights ((new_SpikyNode [1 / 5, 5])\<lparr>level := Finite 2\<rparr>))
   \<and> set [0 :: real] \<subseteq> {0}
   \<and> 2 * (1 - SPIKE_DECAY) < last (weights ((new_SpikyNode [1 / 5, 5])\<lparr>level := Finite 2\<rparr>))
   \<and> fst (SpikyNode_compute [0] ((new_SpikyNode [1 / 5, 5])\<lparr>level := Finite 2\<rparr>))
       = Inr (0, Finite (9 / 5))"
  using compute_decay_law [of "(new_SpikyNode [1 / 5, 5])\<lparr>level := Finite 2\<rparr>" 2 "[0]"]
  by (simp add: new_SpikyNode_def SPIKE_DECAY_def)

text \<open>
  C6. Whenever \<^verbatim>\<open>compute\<close> returns the firing output 1.0, the level it returns and the
  level the neuron keeps are the rest sentinel, and the newest entry of the firing
  history is 1. The firing history is one that the constructor and earlier calls
  produced.
\<close>

theorem compute_fired_resets:
  assumes "fst (SpikyNode_compute inputs self) = Inr (1, lvl)"
    and "rb_wf (firelog self)"
  shows "level (fst (snd (SpikyNode_compute inputs self))) = NegInf \<and> lvl = NegInf \<and>
         rb_get (firelog (fst (snd (SpikyNode_compute inputs self)))) \<noteq> [] \<and>
         last (rb_get (firelog (fst (snd (SpikyNode_compute inputs self))))) = 1"
proof -
  from assms(1) have "level (fst (snd (SpikyNode_compute inputs self))) = NegInf \<and> lvl = NegInf \<and>
      firelog (fst (snd (SpikyNode_compute inputs self))) = rb_add 1 (firelog self)"
    by (auto simp: SpikyNode_compute_def Let_def split: if_splits sum.splits)
  then show ?thesis using rb_get_add_last [OF assms(2), of 1] by simp
qed

text \<open>C6, at a fresh neuron with weights \<open>[1, 1/2]\<close> fed \<open>[1]\<close>.\<close>

theorem compute_fired_resets_witness:
  "fst (SpikyNode_compute [1] (new_SpikyNode [1, 1 / 2])) = Inr (1, NegInf)
   \<and> rb_wf (firelog (new_SpikyNode [1, 1 / 2]))
   \<and> level (fst (snd (SpikyNode_compute [1] (new_SpikyNode [1, 1 / 2])))) = NegInf
   \<and> last (rb_get (firelog (fst (snd (SpikyNode_compute [1] (new_SpikyNode [1, 1 / 2])))))) = 1"
proof -
  have f: "fst (SpikyNode_compute [1] (new_SpikyNode [1, 1 / 2])) = Inr (1, NegInf)"
    by (simp add: SpikyNode_compute_def Let_def new_SpikyNode_def weighted_sum_def get_bias_def)
  have w: "rb_wf (firelog (new_SpikyNode [1, 1 / 2]))"
    by (simp add: new_SpikyNode_firelog)
  show ?thesis using f w compute_fired_resets [OF f w] by simp
qed

section \<open>Duty cycle\<close>

text \<open>
  C7 (as amended). On a firing history of 0s and 1s: \<^verbatim>\<open>duty_cycle\<close> returns 0.0 when
  the history is empty; with a positive window no larger than the history it returns
  the number of 1s among the last \<open>window\<close> entries divided by \<open>window\<close>; with a window
  larger than the history, or with \<^verbatim>\<open>None\<close>, it returns the number of 1s in the whole
  history divided by its length. A call that leaves the window out is a call with
  window 100.
\<close>

theorem duty_cycle_law:
  assumes "set (rb_get (firelog self)) \<subseteq> {0, 1}"
  shows "(rb_length (firelog self) = 0 \<longrightarrow> duty_cycle window self = Inr 0)
    \<and> (0 < w \<and> w \<le> int (rb_length (firelog self)) \<longrightarrow>
         duty_cycle (Some w) self =
           Inr (real (count_list (drop (rb_length (firelog self) - nat w)
                                    (rb_get (firelog self))) 1) / real_of_int w))
    \<and> (0 < rb_length (firelog self) \<and>
         (window = None \<or> (\<exists>w0. window = Some w0 \<and> int (rb_length (firelog self)) < w0)) \<longrightarrow>
         duty_cycle window self =
           Inr (real (count_list (rb_get (firelog self)) 1) / real (rb_length (firelog self))))
    \<and> duty_cycle_default self = duty_cycle (Some 100) self"
proof (intro conjI impI)
  let ?h = "rb_get (firelog self)"
  let ?n = "rb_length (firelog self)"
  have len: "length ?h = ?n" by (rule length_rb_get)
  show "duty_cycle window self = Inr 0" if "?n = 0"
    using that by (simp add: duty_cycle_def)
  show "duty_cycle (Some w) self = Inr (real (count_list (drop (?n - nat w) ?h) 1) / real_of_int w)"
    if h: "0 < w \<and> w \<le> int ?n"
  proof -
    have s: "slice_from (- w) ?h = drop (?n - nat w) ?h"
      using slice_from_last [of w ?h] h len by simp
    have "set (drop (?n - nat w) ?h) \<subseteq> {0, 1}"
      using assms set_drop_subset [of "?n - nat w" ?h] by blast
    then have "sum_list (drop (?n - nat w) ?h) = int (count_list (drop (?n - nat w) ?h) 1)"
      by (rule sum_list_bits)
    then show ?thesis using h s by (simp add: duty_cycle_def Let_def)
  qed
  show "duty_cycle window self = Inr (real (count_list ?h 1) / real ?n)"
    if h: "0 < ?n \<and> (window = None \<or> (\<exists>w0. window = Some w0 \<and> int ?n < w0))"
  proof -
    have s: "slice_from (- int ?n) ?h = ?h"
      using slice_from_last [of "int ?n" ?h] h len by simp
    have c: "sum_list ?h = int (count_list ?h 1)" using assms by (rule sum_list_bits)
    from h have "window = None \<or> (\<exists>w0. window = Some w0 \<and> int ?n < w0)" by simp
    then show ?thesis
    proof
      assume "window = None"
      then show ?thesis using h s c by (simp add: duty_cycle_def Let_def)
    next
      assume "\<exists>w0. window = Some w0 \<and> int ?n < w0"
      then obtain w0 where "window = Some w0" "int ?n < w0" by blast
      then show ?thesis using h s c by (simp add: duty_cycle_def Let_def)
    qed
  qed
  show "duty_cycle_default self = duty_cycle (Some 100) self"
    by (simp add: duty_cycle_default_def)
qed

text \<open>
  C7, at a fresh neuron and at a neuron whose history is 1, 1, 0: window 2 gives 1/2,
  \<^verbatim>\<open>None\<close> and window 7 give 2/3.
\<close>

theorem duty_cycle_law_witness:
  "set (rb_get (rb_add 0 (rb_add 1 (rb_add 1 (new_RingBuffer MAX_FIRELOG_SIZE))))) \<subseteq> {0, 1}
   \<and> rb_length (firelog (new_SpikyNode [1, 1])) = 0
   \<and> duty_cycle (Some 5) (new_SpikyNode [1, 1]) = Inr 0
   \<and> rb_length (rb_add 0 (rb_add 1 (rb_add 1 (new_RingBuffer MAX_FIRELOG_SIZE)))) = 3
   \<and> duty_cycle (Some 2)
        ((new_SpikyNode [1, 1])
           \<lparr>firelog := rb_add 0 (rb_add 1 (rb_add 1 (new_RingBuffer MAX_FIRELOG_SIZE)))\<rparr>)
      = Inr (1 / 2)
   \<and> duty_cycle None
        ((new_SpikyNode [1, 1])
           \<lparr>firelog := rb_add 0 (rb_add 1 (rb_add 1 (new_RingBuffer MAX_FIRELOG_SIZE)))\<rparr>)
      = Inr (2 / 3)
   \<and> duty_cycle (Some 7)
        ((new_SpikyNode [1, 1])
           \<lparr>firelog := rb_add 0 (rb_add 1 (rb_add 1 (new_RingBuffer MAX_FIRELOG_SIZE)))\<rparr>)
      = Inr (2 / 3)"
  using duty_cycle_law [of "new_SpikyNode [1, 1]" "Some 5" 1]
    duty_cycle_law [of "(new_SpikyNode [1, 1])
           \<lparr>firelog := rb_add 0 (rb_add 1 (rb_add 1 (new_RingBuffer MAX_FIRELOG_SIZE)))\<rparr>" None 2]
    duty_cycle_law [of "(new_SpikyNode [1, 1])
           \<lparr>firelog := rb_add 0 (rb_add 1 (rb_add 1 (new_RingBuffer MAX_FIRELOG_SIZE)))\<rparr>" "Some 7" 2]
  by (simp add: new_SpikyNode_def new_RingBuffer_def rb_add_def rb_get_def rb_length_def
      MAX_FIRELOG_SIZE_def Let_def)

text \<open>
  C7 as stated fails where the window is left unspecified. A neuron with weights
  \<open>[1, 1]\<close> fed \<open>[1]\<close> once and \<open>[0]\<close> a hundred times has the history 1, 0, ..., 0 of
  101 entries. The call without a window looks at the last 100 entries and returns 0;
  the whole history gives 1/101, which is what \<^verbatim>\<open>None\<close> returns.
\<close>

theorem default_window_counterexample:
  "duty_cycle_default
     \<lparr>weights = [1, 1], level = Finite 0,
      firelog = \<lparr>capacity = 200, data = 1 # replicate 100 0, cursor = 101\<rparr>,
      levels_log = Finite 1 # replicate 100 (Finite 0)\<rparr> = Inr 0
   \<and> duty_cycle None
     \<lparr>weights = [1, 1], level = Finite 0,
      firelog = \<lparr>capacity = 200, data = 1 # replicate 100 0, cursor = 101\<rparr>,
      levels_log = Finite 1 # replicate 100 (Finite 0)\<rparr> = Inr (1 / 101)"
  by (simp add: duty_cycle_default_def duty_cycle_def rb_length_def rb_get_def slice_from_def
      Let_def sum_list_replicate)

text \<open>
  C10. On a neuron with a non-empty firing history, \<^verbatim>\<open>duty_cycle(0)\<close> raises
  \<^verbatim>\<open>ZeroDivisionError\<close>: the window 0 is not larger than the history, so it is kept;
  the slice of the last 0 entries is the whole history; the sum is divided by 0.
\<close>

theorem duty_cycle_window_zero:
  assumes "rb_length (firelog self) \<noteq> 0"
  shows "duty_cycle (Some 0) self = Inl ZeroDivisionError
       \<and> slice_from (- 0) (rb_get (firelog self)) = rb_get (firelog self)"
  using assms by (simp add: duty_cycle_def Let_def slice_from_def)

text \<open>C10, at a neuron that has been stepped once.\<close>

theorem duty_cycle_window_zero_witness:
  "rb_length (firelog (fst (snd (SpikyNode_compute [1] (new_SpikyNode [1, 1 / 2]))))) \<noteq> 0
   \<and> duty_cycle (Some 0) (fst (snd (SpikyNode_compute [1] (new_SpikyNode [1, 1 / 2]))))
       = Inl ZeroDivisionError"
proof -
  have n: "rb_length (firelog (fst (snd (SpikyNode_compute [1] (new_SpikyNode [1, 1 / 2]))))) \<noteq> 0"
    by (simp add: SpikyNode_compute_def Let_def new_SpikyNode_def weighted_sum_def get_bias_def
        rb_length_def rb_add_def new_RingBuffer_def MAX_FIRELOG_SIZE_def)
  show ?thesis using n duty_cycle_window_zero [OF n] by simp
qed

section \<open>Layer weight distribution\<close>

lemma set_weights_nodes_length:
  "length (fst (set_weights_nodes k ws idx ns)) = length ns"
  by (induction ns arbitrary: idx) (simp_all add: Let_def split_beta)

lemma set_weights_nodes_nth:
  "i < length ns \<Longrightarrow>
   fst (set_weights_nodes k ws idx ns) ! i =
     fst (SpikyNode_set_weights (take k (drop ((idx + i) * k) ws)) (ns ! i))"
proof (induction ns arbitrary: idx i)
  case Nil
  then show ?case by simp
next
  case (Cons n ns)
  show ?case
  proof (cases i)
    case 0
    then show ?thesis by (simp add: Let_def slice_def split_beta)
  next
    case (Suc j)
    with Cons.prems have "j < length ns" by simp
    from Cons.IH [OF this, of "Suc idx"] Suc show ?thesis
      by (simp add: Let_def split_beta)
  qed
qed

lemma set_weights_nodes_cong:
  assumes "\<forall>i<length ns. take k (drop ((idx + i) * k) ws) = take k (drop ((idx + i) * k) ws')"
  shows "set_weights_nodes k ws idx ns = set_weights_nodes k ws' idx ns"
  using assms
proof (induction ns arbitrary: idx)
  case Nil
  then show ?case by simp
next
  case (Cons n ns)
  from Cons.prems have h: "take k (drop (idx * k) ws) = take k (drop (idx * k) ws')"
    by fastforce
  have "\<forall>i<length ns. take k (drop ((Suc idx + i) * k) ws) = take k (drop ((Suc idx + i) * k) ws')"
  proof (intro allI impI)
    fix i assume "i < length ns"
    then have "Suc i < length (n # ns)" by simp
    with Cons.prems have "take k (drop ((idx + Suc i) * k) ws) = take k (drop ((idx + Suc i) * k) ws')"
      by blast
    then show "take k (drop ((Suc idx + i) * k) ws) = take k (drop ((Suc idx + i) * k) ws')"
      by simp
  qed
  from Cons.IH [OF this] h show ?case by (simp add: Let_def slice_def)
qed

lemma concat_slices:
  "concat (map (\<lambda>i. take k (drop (i * k) ws)) [0..<n]) = take (n * k) ws"
proof (induction n)
  case 0
  then show ?case by simp
next
  case (Suc n)
  have "take (Suc n * k) ws = take (n * k) ws @ take k (drop (n * k) ws)"
    using take_add [of "n * k" k ws] by (simp add: add.commute)
  with Suc show ?case by simp
qed

lemma slice_fits:
  assumes "i < n"
  shows "i * (m div n) + m div n \<le> n * (m div n)" and "n * (m div n) \<le> (m::nat)"
proof -
  from assms have "Suc i \<le> n" by simp
  then have "Suc i * (m div n) \<le> n * (m div n)" by (rule mult_le_mono1)
  then show "i * (m div n) + m div n \<le> n * (m div n)" by (simp add: add.commute)
  show "n * (m div n) \<le> m" by simp
qed

lemma abs_all_but_last:
  "map abs (take (length v - 1) v) @ drop (length v - 1) v =
     map abs (butlast v) @ (if v = [] then [] else [last v])"
  for v :: "real list"
  by (cases v rule: rev_cases) simp_all

lemma set_weights_nodes_diag:
  "(idx + length ns) * k \<le> length ws \<Longrightarrow>
   snd (set_weights_nodes k ws idx ns) =
     concat (map (\<lambda>node. if length (weights node) = k then [] else [WeightSizeMismatch]) ns)"
proof (induction ns arbitrary: idx)
  case Nil
  then show ?case by simp
next
  case (Cons n ns)
  from Cons.prems have rest: "(Suc idx + length ns) * k \<le> length ws" by simp
  have "idx * k + k \<le> (idx + length (n # ns)) * k" by (simp add: add_mult_distrib)
  with Cons.prems have "idx * k + k \<le> length ws" by linarith
  then have len: "length (slice (idx * k) (idx * k + k) ws) = k" by (simp add: slice_def)
  have "snd (SpikyNode_set_weights (slice (idx * k) (idx * k + k) ws) n) =
      (if length (weights n) = k then [] else [WeightSizeMismatch])"
    using len by (auto simp: SpikyNode_set_weights_def)
  with Cons.IH [OF rest] show ?case by (simp add: Let_def split_beta)
qed

text \<open>
  C3 (as amended). On a layer of \<open>n > 0\<close> neurons and a flat vector of length \<open>m\<close>, with
  \<open>k = m div n\<close>: neuron \<open>i\<close> is offered the slice of the \<open>k\<close> entries from position
  \<open>i * k\<close>. A neuron whose weight vector has length \<open>k\<close> gets that slice as its weights,
  every entry but the last replaced by its absolute value; a neuron whose weight vector
  has another length keeps its weights, and one mismatch message is printed for it. The
  slices, in neuron order, make up the first \<open>n * k\<close> entries of the vector; the
  \<open>m mod n\<close> entries after them change nothing. On a layer without neurons the call
  changes nothing and prints nothing.
\<close>

theorem layer_set_weights_slices:
  assumes "n = length (nodes self)" and "k = length input_weights div n"
  shows "(n = 0 \<longrightarrow> SpikyLayer_set_weights input_weights self = (self, []))
    \<and> (0 < n \<longrightarrow>
         length (nodes (fst (SpikyLayer_set_weights input_weights self))) = n
       \<and> (\<forall>i<n. length (take k (drop (i * k) input_weights)) = k
                \<and> nodes (fst (SpikyLayer_set_weights input_weights self)) ! i =
                    (if length (weights (nodes self ! i)) = k
                     then (nodes self ! i)
                            \<lparr>weights := map abs (butlast (take k (drop (i * k) input_weights)))
                               @ (if k = 0 then []
                                  else [last (take k (drop (i * k) input_weights))])\<rparr>
                     else nodes self ! i))
       \<and> snd (SpikyLayer_set_weights input_weights self) =
           concat (map (\<lambda>node. if length (weights node) = k then [] else [WeightSizeMismatch])
                     (nodes self))
       \<and> concat (map (\<lambda>i. take k (drop (i * k) input_weights)) [0..<n]) = take (n * k) input_weights
       \<and> length input_weights - n * k = length input_weights mod n
       \<and> SpikyLayer_set_weights input_weights self =
           SpikyLayer_set_weights (take (n * k) input_weights) self)"
proof (intro conjI impI)
  assume "n = 0"
  then show "SpikyLayer_set_weights input_weights self = (self, [])"
    using assms(1) by (simp add: SpikyLayer_set_weights_def)
next
  assume pos: "0 < n"
  then have ne: "nodes self \<noteq> []" using assms(1) by auto
  have k: "length input_weights div length (nodes self) = k" using assms by simp
  have le: "n * k \<le> length input_weights" using assms(2) by simp
  have nodes_eq: "nodes (fst (SpikyLayer_set_weights input_weights self)) =
      fst (set_weights_nodes k input_weights 0 (nodes self))"
    using ne k by (simp add: SpikyLayer_set_weights_def Let_def split_beta)
  have diag_eq: "snd (SpikyLayer_set_weights input_weights self) =
      snd (set_weights_nodes k input_weights 0 (nodes self))"
    using ne k by (simp add: SpikyLayer_set_weights_def Let_def split_beta)
  show "length (nodes (fst (SpikyLayer_set_weights input_weights self))) = n"
    using nodes_eq assms(1) by (simp add: set_weights_nodes_length)
  show "\<forall>i<n. length (take k (drop (i * k) input_weights)) = k
                \<and> nodes (fst (SpikyLayer_set_weights input_weights self)) ! i =
                    (if length (weights (nodes self ! i)) = k
                     then (nodes self ! i)
                            \<lparr>weights := map abs (butlast (take k (drop (i * k) input_weights)))
                               @ (if k = 0 then []
                                  else [last (take k (drop (i * k) input_weights))])\<rparr>
                     else nodes self ! i)"
  proof (intro allI impI conjI)
    fix i assume i: "i < n"
    let ?s = "take k (drop (i * k) input_weights)"
    from slice_fits [OF i, of "length input_weights"] assms(2)
    have "i * k + k \<le> n * k" and "n * k \<le> length input_weights" by simp_all
    then have "i * k + k \<le> length input_weights" by (rule le_trans)
    then show len: "length ?s = k" by simp
    have e: "(?s = []) = (k = 0)" using len by auto
    from i have "i < length (nodes self)" using assms(1) by simp
    from set_weights_nodes_nth [OF this, of k input_weights 0] nodes_eq
    have "nodes (fst (SpikyLayer_set_weights input_weights self)) ! i =
            fst (SpikyNode_set_weights ?s (nodes self ! i))"
      by simp
    also have "\<dots> = (if length (weights (nodes self ! i)) = k
                     then (nodes self ! i)
                            \<lparr>weights := map abs (butlast ?s) @ (if k = 0 then [] else [last ?s])\<rparr>
                     else nodes self ! i)"
      using abs_all_but_last [of ?s] len e by (auto simp: SpikyNode_set_weights_def)
    finally show "nodes (fst (SpikyLayer_set_weights input_weights self)) ! i =
                    (if length (weights (nodes self ! i)) = k
                     then (nodes self ! i)
                            \<lparr>weights := map abs (butlast ?s) @ (if k = 0 then [] else [last ?s])\<rparr>
                     else nodes self ! i)" .
  qed
  show "snd (SpikyLayer_set_weights input_weights self) =
           concat (map (\<lambda>node. if length (weights node) = k then [] else [WeightSizeMismatch])
                     (nodes self))"
    using set_weights_nodes_diag [of 0 "nodes self" k input_weights] le assms(1) diag_eq
    by simp
  show "concat (map (\<lambda>i. take k (drop (i * k) input_weights)) [0..<n]) = take (n * k) input_weights"
    by (rule concat_slices)
  show "length input_weights - n * k = length input_weights mod n"
    using assms(2) by (simp add: minus_mult_div_eq_mod)
  show "SpikyLayer_set_weights input_weights self =
           SpikyLayer_set_weights (take (n * k) input_weights) self"
  proof -
    have k': "length (take (n * k) input_weights) div length (nodes self) = k"
      using le pos assms(1) by simp
    have "\<forall>i<length (nodes self).
            take k (drop ((0 + i) * k) input_weights) =
            take k (drop ((0 + i) * k) (take (n * k) input_weights))"
    proof (intro allI impI)
      fix i assume "i < length (nodes self)"
      then have i: "i < n" using assms(1) by simp
      from slice_fits(1) [OF i, of "length input_weights"] assms(2)
      have "i * k + k \<le> n * k" by simp
      then have "min k (n * k - i * k) = k" by simp
      then show "take k (drop ((0 + i) * k) input_weights) =
            take k (drop ((0 + i) * k) (take (n * k) input_weights))"
        by (simp add: drop_take)
    qed
    then have "set_weights_nodes k input_weights 0 (nodes self) =
        set_weights_nodes k (take (n * k) input_weights) 0 (nodes self)"
      by (rule set_weights_nodes_cong)
    then show ?thesis using ne k k' by (simp add: SpikyLayer_set_weights_def Let_def)
  qed
qed

text \<open>
  C3, at a layer of two neurons with two weights each and a flat vector of length 5
  (both neurons take their slice, the fifth entry is dropped), at a layer of a
  two-weight and a three-weight neuron with the same vector (the second neuron keeps
  its weights and one message is printed), and at a layer without neurons.
\<close>

theorem layer_set_weights_slices_witness:
  "(2::nat) = length (nodes (new_SpikyLayer [[9, 9], [8, 8]]))
   \<and> (2::nat) = length [-1, 2, -3, 4, 5 :: real] div 2
   \<and> SpikyLayer_set_weights [-1, 2, -3, 4, 5] (new_SpikyLayer [[9, 9], [8, 8]])
       = (new_SpikyLayer [[1, 2], [3, 4]], [])
   \<and> SpikyLayer_set_weights [-1, 2, -3, 4, 5] (new_SpikyLayer [[9, 9], [8, 8]])
       = SpikyLayer_set_weights [-1, 2, -3, 4] (new_SpikyLayer [[9, 9], [8, 8]])
   \<and> SpikyLayer_set_weights [-1, 2, -3, 4, 5] (new_SpikyLayer [[9, 9], [8, 8, 8]])
       = (new_SpikyLayer [[1, 2], [8, 8, 8]], [WeightSizeMismatch])
   \<and> SpikyLayer_set_weights [-1, 2, -3, 4, 5] (new_SpikyLayer [])
       = (new_SpikyLayer [], [])"
proof -
  have d: "Suc (Suc (Suc (Suc (Suc 0)))) div Suc (Suc 0) = Suc (Suc 0)"
    and d': "Suc (Suc (Suc (Suc 0))) div Suc (Suc 0) = Suc (Suc 0)"
    by code_simp+
  show ?thesis
    using layer_set_weights_slices [of 2 "new_SpikyLayer [[9, 9], [8, 8]]" 2 "[-1, 2, -3, 4, 5]"]
      layer_set_weights_slices [of 2 "new_SpikyLayer [[9, 9], [8, 8, 8]]" 2 "[-1, 2, -3, 4, 5]"]
      layer_set_weights_slices [of 0 "new_SpikyLayer []" 0 "[-1, 2, -3, 4, 5]"]
    by (simp add: new_SpikyLayer_def new_SpikyNode_def SpikyLayer_set_weights_def
        SpikyNode_set_weights_def slice_def Let_def d d')
qed

text \<open>
  C3 as stated fails. A layer of two neurons with two weights each, given a flat vector
  of length 6, offers each neuron a slice of \<open>6 div 2 = 3\<close> entries; both neurons
  refuse it, two mismatch messages are printed, and no neuron has 3 weights afterwards.
\<close>

theorem refused_slices_counterexample:
  "SpikyLayer_set_weights [1, 2, 3, 4, 5, 6] (new_SpikyLayer [[9, 9], [8, 8]])
     = (new_SpikyLayer [[9, 9], [8, 8]], [WeightSizeMismatch, WeightSizeMismatch])
   \<and> length [1, 2, 3, 4, 5, 6 :: real] div length (nodes (new_SpikyLayer [[9, 9], [8, 8]])) = 3
   \<and> map (\<lambda>node. length (weights node))
        (nodes (fst (SpikyLayer_set_weights [1, 2, 3, 4, 5, 6]
                       (new_SpikyLayer [[9, 9], [8, 8]])))) = [2, 2]"
proof -
  have d: "Suc (Suc (Suc (Suc (Suc (Suc 0))))) div Suc (Suc 0) = 3"
    by code_simp
  show ?thesis
    by (simp add: new_SpikyLayer_def new_SpikyNode_def SpikyLayer_set_weights_def
        SpikyNode_set_weights_def slice_def Let_def d)
qed


section \<open>Network\<close>

text \<open>
  C4. The network with 2 inputs, 1 hidden and 1 output neuron, given the genome with
  hidden weights \<open>[1, 1, 1/2]\<close> and output weights \<open>[1, 1/2]\<close>, and fed \<open>[1, 1]\<close> at
  its first step, returns \<open>([1.0], [-inf])\<close> and prints nothing. In the network after
  the step the hidden neuron has logged the level 2 (its weighted sum), has recorded
  the firing 1 and is back at rest; the output neuron, fed the hidden output \<open>[1.0]\<close>,
  has logged the level 1 (its weighted sum), has recorded the firing 1 and is back at
  rest. Fed \<open>[0, 0]\<close> instead, the hidden neuron stays silent at level 0 and so does
  the output neuron, which shows that the output layer is fed the hidden output.
\<close>

theorem scenario_2_1_1:
  "SpikyNet_set_weights [''hidden_layer'' \<mapsto> [1, 1, 1 / 2], ''output_layer'' \<mapsto> [1, 1 / 2]]
       (new_SpikyNet [[a, b, c]] [[d, e]])
     = (Inr (), new_SpikyNet [[1, 1, 1 / 2]] [[1, 1 / 2]], [])
   \<and> weighted_sum [1, 1] [1, 1, 1 / 2] = 2
   \<and> weighted_sum [1] [1, 1 / 2] = 1
   \<and> SpikyNet_compute [1, 1] 100
        (fst (snd (SpikyNet_set_weights
           [''hidden_layer'' \<mapsto> [1, 1, 1 / 2], ''output_layer'' \<mapsto> [1, 1 / 2]]
           (new_SpikyNet [[a, b, c]] [[d, e]]))))
     = (Inr ([1], [NegInf]),
        \<lparr>hidden_layer =
           \<lparr>nodes = [\<lparr>weights = [1, 1, 1 / 2], level = NegInf,
                      firelog = \<lparr>capacity = 200, data = [1], cursor = 1\<rparr>,
                      levels_log = [Finite 2]\<rparr>]\<rparr>,
         output_layer =
           \<lparr>nodes = [\<lparr>weights = [1, 1 / 2], level = NegInf,
                      firelog = \<lparr>capacity = 200, data = [1], cursor = 1\<rparr>,
                      levels_log = [Finite 1]\<rparr>]\<rparr>\<rparr>,
        [])
   \<and> SpikyNet_compute [0, 0] 100
        (fst (snd (SpikyNet_set_weights
           [''hidden_layer'' \<mapsto> [1, 1, 1 / 2], ''output_layer'' \<mapsto> [1, 1 / 2]]
           (new_SpikyNet [[a, b, c]] [[d, e]]))))
     = (Inr ([0], [Finite 0]),
        \<lparr>hidden_layer =
           \<lparr>nodes = [\<lparr>weights = [1, 1, 1 / 2], level = Finite 0,
                      firelog = \<lparr>capacity = 200, data = [0], cursor = 1\<rparr>,
                      levels_log = [Finite 0]\<rparr>]\<rparr>,
         output_layer =
           \<lparr>nodes = [\<lparr>weights = [1, 1 / 2], level = Finite 0,
                      firelog = \<lparr>capacity = 200, data = [0], cursor = 1\<rparr>,
                      levels_log = [Finite 0]\<rparr>]\<rparr>\<rparr>,
        [])"
  by (simp add: SpikyNet_set_weights_def SpikyLayer_set_weights_def SpikyNode_set_weights_def
      slice_def new_SpikyNet_def new_SpikyLayer_def new_SpikyNode_def weighted_sum_def
      SpikyLayer_compute_def SpikyNode_compute_def SpikyNet_compute_def get_bias_def Let_def
      rb_add_def new_RingBuffer_def MAX_FIRELOG_SIZE_def)

text \<open>C4, from a network whose drawn weights were all \<open>-1/3\<close>.\<close>

theorem scenario_2_1_1_witness:
  "fst (SpikyNet_set_weights
          [''hidden_layer'' \<mapsto> [1, 1, 1 / 2], ''output_layer'' \<mapsto> [1, 1 / 2]]
          (new_SpikyNet [[- 1 / 3, - 1 / 3, - 1 / 3]] [[- 1 / 3, - 1 / 3]])) = Inr ()
   \<and> fst (SpikyNet_compute [1, 1] 100
        (fst (snd (SpikyNet_set_weights
           [''hidden_layer'' \<mapsto> [1, 1, 1 / 2], ''output_layer'' \<mapsto> [1, 1 / 2]]
           (new_SpikyNet [[- 1 / 3, - 1 / 3, - 1 / 3]] [[- 1 / 3, - 1 / 3]])))))
     = Inr ([1], [NegInf])"
  using scenario_2_1_1 [of "- 1 / 3" "- 1 / 3" "- 1 / 3" "- 1 / 3" "- 1 / 3"]
  by (elim conjE) simp

text \<open>
  C9. \<^verbatim>\<open>SpikyNet.set_weights\<close> with a genome that lacks the hidden-layer key or the
  output-layer key ends in a \<^verbatim>\<open>KeyError\<close> that reaches the caller.
\<close>

theorem net_set_weights_missing_key:
  assumes "input_weights ''hidden_layer'' = None \<or> input_weights ''output_layer'' = None"
  shows "fst (SpikyNet_set_weights input_weights self) = Inl KeyError"
  using assms by (auto simp: SpikyNet_set_weights_def split: option.splits prod.splits)

text \<open>C9, at the empty genome and at a genome with the hidden-layer key only.\<close>

theorem net_set_weights_missing_key_witness:
  "(Map.empty :: string \<rightharpoonup> real list) ''hidden_layer'' = None
   \<and> fst (SpikyNet_set_weights Map.empty (new_SpikyNet [[1, 1, 1]] [[1, 1]])) = Inl KeyError
   \<and> [''hidden_layer'' \<mapsto> [1, 1, 1 / 2 :: real]] ''output_layer'' = None
   \<and> fst (SpikyNet_set_weights [''hidden_layer'' \<mapsto> [1, 1, 1 / 2]]
            (new_SpikyNet [[1, 1, 1]] [[1, 1]])) = Inl KeyError"
  using net_set_weights_missing_key [of Map.empty "new_SpikyNet [[1, 1, 1]] [[1, 1]]"]
    net_set_weights_missing_key [of "[''hidden_layer'' \<mapsto> [1, 1, 1 / 2]]"
      "new_SpikyNet [[1, 1, 1]] [[1, 1]]"]
  by simp

end
